theory Spec2Isabelle
  imports Main "HOL-Library.Word" "HOL-Library.Char_ord" "HOL-Library.List_Lexorder"
begin

section \<open>The 64-bit feature flags of a block header\<close>

text \<open>
  Modelled from the spec: \<^verbatim>\<open>utils/int-uint-64\<close> (which exports \<^verbatim>\<open>uint64ToInt64\<close>) is not
  among the sources; \<^verbatim>\<open>saveBlock\<close> only calls it on \<^verbatim>\<open>headerData.featureFlags\<close>.
  The spec prescribes the two's-complement reinterpretation of an unsigned 64-bit value as a
  signed one: values from \<open>2^63\<close> upwards wrap to the negatives.
\<close>

definition uint64ToInt64 :: "int \<Rightarrow> int" where
  "uint64ToInt64 f = (if 2 ^ 63 \<le> f then f - 2 ^ 64 else f)"

text \<open>
  Modelled from the spec: the inverse reinterpretation that "any downstream read must
  perform"; no such function is among the sources.
\<close>

definition int64ToUint64 :: "int \<Rightarrow> int" where
  "int64ToUint64 i = (if i < 0 then i + 2 ^ 64 else i)"

section \<open>Values shared by the pipelines\<close>

text \<open>
  JSON values that the indexer only copies are kept as their text. A JavaScript exception is
  a value of \<open>error\<close>; every function that can throw returns \<open>error + 'a\<close> or reports the
  error it caught. Console output is kept as a list of lines.
\<close>

type_synonym json = string

datatype error = SyntaxError | UniqueConstraintError | Thrown string

datatype log_line = Info string | Error string error

text \<open>\<^verbatim>\<open>Boolean(s)\<close> on a string, as used by \<^verbatim>\<open>.filter(Boolean)\<close> and \<^verbatim>\<open>if (before)\<close>.\<close>

definition truthy :: "string \<Rightarrow> bool" where
  "truthy s = (s \<noteq> [])"

text \<open>\<^verbatim>\<open>Number.prototype.toString()\<close> on an integer: its decimal digits.\<close>

fun digitsOf :: "nat \<Rightarrow> string" where
  "digitsOf n =
     (if n < 10 then [''0123456789'' ! n]
      else digitsOf (n div 10) @ [''0123456789'' ! (n mod 10)])"

declare digitsOf.simps [simp del]

definition toString :: "int \<Rightarrow> string" where
  "toString i = (if i < 0 then CHR ''-'' # digitsOf (nat (- i)) else digitsOf (nat i))"

text \<open>
  \<^verbatim>\<open>new Set(xs)\<close> followed by \<^verbatim>\<open>Array.from\<close>: a JavaScript set keeps the order of first
  insertion.
\<close>

definition setAdd :: "'a list \<Rightarrow> 'a \<Rightarrow> 'a list" where
  "setAdd acc x = (if x \<in> set acc then acc else acc @ [x])"

definition arrayFromSet :: "'a list \<Rightarrow> 'a list" where
  "arrayFromSet xs = foldl setAdd [] xs"

record DispatchInfo =
  d_hash :: string
  d_chainId :: string
  d_height :: int
  d_requestKeys :: "string list"
  d_qualifiedEventNames :: "string list"

section \<open>Tip streamer: \<^verbatim>\<open>services/sync/streaming.ts\<close>\<close>

record Header =
  h_nonce :: string
  h_creationTime :: string
  h_parent :: string
  h_adjacents :: json
  h_target :: string
  h_payloadHash :: string
  h_chainId :: int
  h_weight :: string
  h_height :: int
  h_chainwebVersion :: string
  h_epochStart :: string
  h_featureFlags :: int
  h_hash :: string

text \<open>The object \<^verbatim>\<open>processPayload\<close> returns: the payload with its base64 fields decoded.\<close>

record PayloadData =
  p_transactions :: "(json \<times> json) list"
  p_minerData :: json
  p_transactionsHash :: string
  p_outputsHash :: string
  p_payloadHash :: string
  p_coinbase :: json

text \<open>A row of \<^verbatim>\<open>Blocks\<close>: the attributes \<^verbatim>\<open>saveBlock\<close> fills in, and the generated id.\<close>

record Block =
  b_id :: int
  b_nonce :: string
  b_creationTime :: string
  b_parent :: string
  b_adjacents :: json
  b_target :: string
  b_payloadHash :: string
  b_chainId :: int
  b_weight :: string
  b_height :: int
  b_chainwebVersion :: string
  b_epochStart :: string
  b_featureFlags :: int
  b_hash :: string
  b_minerData :: json
  b_transactionsHash :: string
  b_outputsHash :: string
  b_coinbase :: json
  b_transactionsCount :: "int option"

text \<open>The fields of a created event that \<^verbatim>\<open>saveBlock\<close> reads.\<close>

record EventAttributes =
  ev_requestkey :: string
  ev_module :: string
  ev_name :: string

record StreamingError =
  se_hash :: string
  se_chainId :: int

text \<open>
  The database as the streamer sees it. \<open>payloadTables\<close> stands for the tables that
  \<^verbatim>\<open>processPayloadKey\<close> writes (transactions, events, transfers, signers, balances).
\<close>

record 'p database =
  blocks :: "Block list"
  streamingErrors :: "StreamingError list"
  payloadTables :: 'p

text \<open>
  Modelled from the spec: \<^verbatim>\<open>models/block\<close> is not among the sources. The spec gives
  \<^verbatim>\<open>Block.hash\<close> a uniqueness constraint, so \<^verbatim>\<open>Block.create\<close> raises on a stored hash
  and otherwise appends the row under the next id.
\<close>

definition Block_create :: "Block \<Rightarrow> Block list \<Rightarrow> error + (Block \<times> Block list)" where
  "Block_create attrs rows =
     (if b_hash attrs \<in> set (map b_hash rows) then Inl UniqueConstraintError
      else (let created = attrs\<lparr>b_id := int (length rows) + 1\<rparr>
            in Inr (created, rows @ [created])))"

text \<open>
  Modelled from the spec: \<^verbatim>\<open>models/streaming-error\<close> is not among the sources. The spec
  gives a StreamingError the attributes \<open>hash\<close> and \<open>chainId\<close> and no constraint, so
  \<^verbatim>\<open>StreamingError.create\<close> appends the row.
\<close>

definition StreamingError_create :: "StreamingError \<Rightarrow> 'p database \<Rightarrow> 'p database" where
  "StreamingError_create row db = db\<lparr>streamingErrors := streamingErrors db @ [row]\<rparr>"

text \<open>
  \<^verbatim>\<open>saveBlock\<close>. The function \<^verbatim>\<open>processPayloadKey\<close> (\<^verbatim>\<open>./payload\<close>) is not among the
  sources and is a parameter: from the created block, the payload and the payload tables
  it either throws or returns the created events and the new tables. Everything is written
  under one transaction: the result carries the new database when the transaction commits
  and the database as it was when it rolls back, with the line the \<^verbatim>\<open>catch\<close> branch logs.
\<close>

type_synonym 'p processPayloadKey =
  "Block \<Rightarrow> PayloadData \<Rightarrow> 'p \<Rightarrow> error + (EventAttributes list \<times> 'p)"

definition blockAttribute :: "Header \<Rightarrow> PayloadData \<Rightarrow> Block" where
  "blockAttribute headerData payloadData =
     \<lparr> b_id = 0,
       b_nonce = h_nonce headerData,
       b_creationTime = h_creationTime headerData,
       b_parent = h_parent headerData,
       b_adjacents = h_adjacents headerData,
       b_target = h_target headerData,
       b_payloadHash = h_payloadHash headerData,
       b_chainId = h_chainId headerData,
       b_weight = h_weight headerData,
       b_height = h_height headerData,
       b_chainwebVersion = h_chainwebVersion headerData,
       b_epochStart = h_epochStart headerData,
       b_featureFlags = uint64ToInt64 (h_featureFlags headerData),
       b_hash = h_hash headerData,
       b_minerData = p_minerData payloadData,
       b_transactionsHash = p_transactionsHash payloadData,
       b_outputsHash = p_outputsHash payloadData,
       b_coinbase = p_coinbase payloadData,
       b_transactionsCount = Some (int (length (p_transactions payloadData))) \<rparr>"

definition dispatchInfoOf :: "Block \<Rightarrow> EventAttributes list \<Rightarrow> DispatchInfo" where
  "dispatchInfoOf createdBlock eventsCreated =
     (let uniqueRequestKeys = arrayFromSet (filter truthy (map ev_requestkey eventsCreated));
          uniqueQualifiedEventNames =
            arrayFromSet (filter truthy (map (\<lambda>t. ev_module t @ ''.'' @ ev_name t) eventsCreated))
      in \<lparr> d_hash = b_hash createdBlock,
           d_chainId = toString (b_chainId createdBlock),
           d_height = b_height createdBlock,
           d_requestKeys = uniqueRequestKeys,
           d_qualifiedEventNames = uniqueQualifiedEventNames \<rparr>)"

definition saveBlock ::
  "'p processPayloadKey \<Rightarrow> Header \<Rightarrow> PayloadData \<Rightarrow> 'p database
     \<Rightarrow> DispatchInfo option \<times> 'p database \<times> log_line list" where
  "saveBlock processPayloadKey headerData payloadData db =
     (case Block_create (blockAttribute headerData payloadData) (blocks db) of
        Inl e \<Rightarrow> (None, db, [Error ''Error saving block to the database: '' e])
      | Inr (createdBlock, rows) \<Rightarrow>
          (case processPayloadKey createdBlock payloadData (payloadTables db) of
             Inl e \<Rightarrow> (None, db, [Error ''Error saving block to the database: '' e])
           | Inr (eventsCreated, tables) \<Rightarrow>
               (Some (dispatchInfoOf createdBlock eventsCreated),
                db\<lparr>blocks := rows, payloadTables := tables\<rparr>, [])))"

text \<open>
  The state of the streaming process: the set \<^verbatim>\<open>blocksAlreadyReceived\<close>, the database, the
  publish queue of \<^verbatim>\<open>jobs/publisher-job\<close> (which \<^verbatim>\<open>streaming.ts\<close> never calls; it imports
  the type \<^verbatim>\<open>DispatchInfo\<close> only), and the console. \<open>s_saveBlockCalls\<close> is instrumentation:
  the hashes \<^verbatim>\<open>saveBlock\<close> was called with, in order.
\<close>

record 'p streamer =
  blocksAlreadyReceived :: "string set"
  s_db :: "'p database"
  s_bus :: "DispatchInfo list"
  s_console :: "log_line list"
  s_saveBlockCalls :: "string list"

text \<open>
  An incoming \<^verbatim>\<open>BlockHeader\<close> event after lines 27 and 28 of the listener: either
  \<^verbatim>\<open>JSON.parse\<close> or \<^verbatim>\<open>processPayload\<close> threw, or they produced a header and a payload.
\<close>

datatype sse_event = Rejected error | BlockHeader Header PayloadData

definition onBlockHeader :: "'p processPayloadKey \<Rightarrow> sse_event \<Rightarrow> 'p streamer \<Rightarrow> 'p streamer" where
  "onBlockHeader processPayloadKey event st =
     (case event of
        Rejected e \<Rightarrow> st\<lparr>s_console := s_console st @ [Error [] e]\<rparr>
      | BlockHeader header payload \<Rightarrow>
          if h_hash header \<in> blocksAlreadyReceived st then st
          else
            (let st1 = st\<lparr>blocksAlreadyReceived := insert (h_hash header) (blocksAlreadyReceived st),
                           s_saveBlockCalls := s_saveBlockCalls st @ [h_hash header]\<rparr>;
                 (blockData, db, logged) = saveBlock processPayloadKey header payload (s_db st1);
                 st2 = st1\<lparr>s_db := db, s_console := s_console st1 @ logged\<rparr>
             in (case blockData of
                   None \<Rightarrow>
                     st2\<lparr>s_db := StreamingError_create
                                    \<lparr>se_hash = h_hash header, se_chainId = h_chainId header\<rparr> (s_db st2)\<rparr>
                 | Some info \<Rightarrow> st2)))"


definition onClearTimer :: "'p streamer \<Rightarrow> 'p streamer" where
  "onClearTimer st =
     st\<lparr>blocksAlreadyReceived := {},
        s_console := s_console st @ [Info ''Clearing blocks already received.'']\<rparr>"

text \<open>
  What the streaming process reacts to, in the order the event loop delivers it. The listener
  catches every exception, so each input leaves a state from which the next is handled. The
  listener tests and extends \<^verbatim>\<open>blocksAlreadyReceived\<close> before its first \<^verbatim>\<open>await\<close>, so the
  inputs are taken one after the other.
\<close>

datatype stream_input = Event sse_event | ClearTimer

fun streamStep :: "'p processPayloadKey \<Rightarrow> stream_input \<Rightarrow> 'p streamer \<Rightarrow> 'p streamer" where
  "streamStep ppk (Event e) st = onBlockHeader ppk e st"
| "streamStep ppk ClearTimer st = onClearTimer st"

fun runStream :: "'p processPayloadKey \<Rightarrow> 'p streamer \<Rightarrow> stream_input list \<Rightarrow> 'p streamer" where
  "runStream ppk st [] = st"
| "runStream ppk st (i # is) = runStream ppk (streamStep ppk i st) is"

text \<open>A header, a payload, an empty streamer and two payload processors for concrete runs.\<close>

definition exampleHeader :: "string \<Rightarrow> Header" where
  "exampleHeader h =
     \<lparr> h_nonce = ''0'', h_creationTime = ''1700000000'', h_parent = ''P'', h_adjacents = ''{}'',
       h_target = ''T'', h_payloadHash = ''PH'', h_chainId = 3, h_weight = ''W'', h_height = 500,
       h_chainwebVersion = ''mainnet01'', h_epochStart = ''1700000000'',
       h_featureFlags = 0, h_hash = h \<rparr>"

definition examplePayload :: PayloadData where
  "examplePayload =
     \<lparr> p_transactions = [], p_minerData = ''{}'', p_transactionsHash = ''TH'',
       p_outputsHash = ''OH'', p_payloadHash = ''PH'', p_coinbase = ''{}'' \<rparr>"

definition emptyStreamer :: "unit streamer" where
  "emptyStreamer =
     \<lparr> blocksAlreadyReceived = {},
       s_db = \<lparr> blocks = [], streamingErrors = [], payloadTables = () \<rparr>,
       s_bus = [], s_console = [], s_saveBlockCalls = [] \<rparr>"

definition payloadOk :: "unit processPayloadKey" where
  "payloadOk createdBlock payload tables = Inr ([], tables)"

definition payloadFails :: "unit processPayloadKey" where
  "payloadFails createdBlock payload tables = Inl (Thrown ''invalid payload'')"

section \<open>Archive backfiller: \<^verbatim>\<open>processKeys\<close>\<close>

text \<open>The sources a sync status can have (\<^verbatim>\<open>models/syncStatus\<close> exports the four constants).\<close>

datatype source = SOURCE_S3 | SOURCE_API | SOURCE_BACKFILL | SOURCE_STREAMING

text \<open>The object \<^verbatim>\<open>processKeys\<close> hands to \<^verbatim>\<open>syncStatusService.save\<close>.\<close>

record SyncStatus =
  ss_chainId :: int
  ss_network :: string
  ss_key :: "string option"
  ss_prefix :: string
  ss_source :: source

text \<open>
  Modelled from the spec: \<^verbatim>\<open>services/syncStatusService\<close> is not among the sources. The spec
  gives a SyncStatus the identity (network, chainId, prefix, source) with at most one row
  per identity, a lookup by that identity and an upsert within the caller's transaction.
\<close>

type_synonym ledger = "int \<times> string \<times> string \<times> source \<Rightarrow> SyncStatus option"

definition findWithPrefix :: "ledger \<Rightarrow> int \<Rightarrow> string \<Rightarrow> string \<Rightarrow> source \<Rightarrow> SyncStatus option" where
  "findWithPrefix rows chainId network prefix src = rows (chainId, network, prefix, src)"

definition save :: "SyncStatus \<Rightarrow> ledger \<Rightarrow> ledger" where
  "save row rows = rows((ss_chainId row, ss_network row, ss_prefix row, ss_source row) \<mapsto> row)"

text \<open>The key stored for an identity: none when there is no row or the row has no key.\<close>

definition cursorKey :: "ledger \<Rightarrow> int \<Rightarrow> string \<Rightarrow> string \<Rightarrow> source \<Rightarrow> string option" where
  "cursorKey rows chainId network prefix src =
     (case findWithPrefix rows chainId network prefix src of None \<Rightarrow> None | Some s \<Rightarrow> ss_key s)"

text \<open>
  Modelled from the spec: \<^verbatim>\<open>services/s3Service\<close> is not among the sources. The spec gives
  the object store the operation \<open>list(prefix, maxKeys, startAfter)\<close>: the keys with the
  prefix that come after \<open>startAfter\<close>, lexicographically sorted, at most \<open>maxKeys\<close> of them.
  The bucket is the list of its keys; strings are ordered lexicographically.
\<close>

definition listS3Objects :: "string list \<Rightarrow> string \<Rightarrow> nat \<Rightarrow> string option \<Rightarrow> string list" where
  "listS3Objects bucket prefix maxKeys startAfter =
     take maxKeys
       (filter (\<lambda>k. take (length prefix) k = prefix
                     \<and> (case startAfter of None \<Rightarrow> True | Some s \<Rightarrow> s < k))
          (sort (remdups bucket)))"

text \<open>
  Modelled from the spec: \<^verbatim>\<open>jobs/publisher-job\<close> is not among the sources. The spec gives
  the Publication Bus an \<open>append\<close> onto an unbounded buffer; \<^verbatim>\<open>addPublishEvents\<close> is called
  with the records only, without the transaction, so the records are on the buffer from the
  call on.
\<close>

definition addPublishEvents :: "DispatchInfo list \<Rightarrow> DispatchInfo list \<Rightarrow> DispatchInfo list" where
  "addPublishEvents events buffer = buffer @ events"

text \<open>
  The type \<^verbatim>\<open>ProcessKeyFunction\<close>: from the network, a key and the data written so far
  under the transaction, it throws or returns a \<^verbatim>\<open>DispatchInfo\<close> or null and the data with
  its writes.
\<close>

type_synonym 'd processKey = "string \<Rightarrow> string \<Rightarrow> 'd \<Rightarrow> error + (DispatchInfo option \<times> 'd)"

text \<open>
  \<^verbatim>\<open>Promise.all(keys.map(key => processKey(network, key, tx)))\<close>, taken in key order: the
  results in the order of the keys, or a rejection. \<^verbatim>\<open>Promise.all\<close> starts every key and
  rejects with the rejection that settles first; here the keys are taken one after the
  other, so of several failing keys the first in key order is reported. The call is left
  for the \<^verbatim>\<open>catch\<close> branch either way; only the error that is logged can differ.
\<close>

fun processAll ::
  "'d processKey \<Rightarrow> string \<Rightarrow> string list \<Rightarrow> 'd \<Rightarrow> error + (DispatchInfo option list \<times> 'd)" where
  "processAll processKey network [] d = Inr ([], d)"
| "processAll processKey network (key # keys) d =
     (case processKey network key d of
        Inl e \<Rightarrow> Inl e
      | Inr (r, d1) \<Rightarrow>
          (case processAll processKey network keys d1 of
             Inl e \<Rightarrow> Inl e
           | Inr (rs, d2) \<Rightarrow> Inr (r # rs, d2)))"

text \<open>\<^verbatim>\<open>res.filter((r) => r !== null)\<close>.\<close>

definition nonNull :: "'a option list \<Rightarrow> 'a list" where
  "nonNull res = map the (filter (\<lambda>r. r \<noteq> None) res)"

text \<open>
  The local variables of \<^verbatim>\<open>processKeys\<close> while the loop runs, with the data as written under
  the open transaction and the publish buffer. \<open>pages\<close> and \<open>results\<close> are instrumentation:
  the non-empty listings processed so far and the results of their keys, in order.
\<close>

record 'd locals =
  startAfter :: "string option"
  isFinished :: bool
  iterationCount :: nat
  totalKeysProcessed :: nat
  tx_data :: 'd
  buffer :: "DispatchInfo list"
  pages :: "string list list"
  results :: "DispatchInfo option list"

text \<open>\<^verbatim>\<open>!maxIterations || iterationCount < maxIterations\<close>: an absent bound and 0 are both falsy.\<close>

definition withinIterations :: "nat option \<Rightarrow> nat \<Rightarrow> bool" where
  "withinIterations maxIterations n =
     (case maxIterations of None \<Rightarrow> True | Some m \<Rightarrow> m = 0 \<or> n < m)"

text \<open>
  The \<^verbatim>\<open>while\<close> loop. It returns the locals as the loop left them, and the error when a
  key's processing threw (the exception leaves the loop for the \<^verbatim>\<open>catch\<close> branch).
\<close>

function processKeysLoop ::
  "string list \<Rightarrow> 'd processKey \<Rightarrow> string \<Rightarrow> string \<Rightarrow> nat \<Rightarrow> nat option \<Rightarrow> 'd locals
     \<Rightarrow> error option \<times> 'd locals" where
  "processKeysLoop bucket processKey network prefix maxKeys maxIterations ls =
     (if \<not> isFinished ls \<and> withinIterations maxIterations (iterationCount ls) then
        (let keys = listS3Objects bucket prefix maxKeys (startAfter ls) in
         if length keys > 0 then
           (case processAll processKey network keys (tx_data ls) of
              Inl e \<Rightarrow> (Some e, ls)
            | Inr (res, d) \<Rightarrow>
                processKeysLoop bucket processKey network prefix maxKeys maxIterations
                  (ls\<lparr>tx_data := d,
                      buffer := addPublishEvents (nonNull res) (buffer ls),
                      totalKeysProcessed := totalKeysProcessed ls + length keys,
                      startAfter := Some (last keys),
                      iterationCount := iterationCount ls + 1,
                      pages := pages ls @ [keys],
                      results := results ls @ res\<rparr>))
         else
           processKeysLoop bucket processKey network prefix maxKeys maxIterations
             (ls\<lparr>isFinished := True\<rparr>))
      else (None, ls))"
  by pat_completeness auto
termination
proof (relation "measure (\<lambda>(bucket, processKey, network, prefix, maxKeys, maxIterations, ls).
    if isFinished ls then 0
    else 1 + card {k \<in> set bucket. case startAfter ls of None \<Rightarrow> True | Some s \<Rightarrow> s < k})")
  show "wf (measure (\<lambda>(bucket, processKey, network, prefix, maxKeys, maxIterations, ls).
    if isFinished ls then 0
    else 1 + card {k \<in> set bucket. case startAfter ls of None \<Rightarrow> True | Some s \<Rightarrow> s < k}))"
    by simp
next
  fix bucket :: "string list" and processKey :: "'d processKey" and network prefix :: string
    and maxKeys :: nat and maxIterations :: "nat option" and ls :: "'d locals"
    and keys :: "string list" and x :: "DispatchInfo option list \<times> 'd"
    and res :: "DispatchInfo option list" and d :: 'd
  assume run: "\<not> isFinished ls \<and> withinIterations maxIterations (iterationCount ls)"
    and keys: "keys = listS3Objects bucket prefix maxKeys (startAfter ls)"
    and some: "0 < length keys"
  let ?after = "\<lambda>c k. case c of None \<Rightarrow> True | Some s \<Rightarrow> s < (k :: string)"
  from some have "last keys \<in> set keys" by simp
  then have "last keys \<in> set (filter (\<lambda>k. take (length prefix) k = prefix \<and> ?after (startAfter ls) k)
      (sort (remdups bucket)))"
    unfolding keys listS3Objects_def by (rule in_set_takeD)
  then have mem: "last keys \<in> set bucket" and gt: "?after (startAfter ls) (last keys)"
    by simp_all
  have "{k \<in> set bucket. last keys < k} \<subset> {k \<in> set bucket. ?after (startAfter ls) k}"
  proof
    show "{k \<in> set bucket. last keys < k} \<subseteq> {k \<in> set bucket. ?after (startAfter ls) k}"
      using gt by (auto split: option.splits)
    show "{k \<in> set bucket. last keys < k} \<noteq> {k \<in> set bucket. ?after (startAfter ls) k}"
      using mem gt by auto
  qed
  then have "card {k \<in> set bucket. last keys < k} < card {k \<in> set bucket. ?after (startAfter ls) k}"
    by (intro psubset_card_mono) simp_all
  with run show "((bucket, processKey, network, prefix, maxKeys, maxIterations,
        ls\<lparr>tx_data := d,
           buffer := addPublishEvents (nonNull res) (buffer ls),
           totalKeysProcessed := totalKeysProcessed ls + length keys,
           startAfter := Some (last keys),
           iterationCount := iterationCount ls + 1,
           pages := pages ls @ [keys],
           results := results ls @ res\<rparr>),
       (bucket, processKey, network, prefix, maxKeys, maxIterations, ls))
      \<in> measure (\<lambda>(bucket, processKey, network, prefix, maxKeys, maxIterations, ls).
          if isFinished ls then 0
          else 1 + card {k \<in> set bucket. case startAfter ls of None \<Rightarrow> True | Some s \<Rightarrow> s < k})"
    by simp
next
  fix bucket :: "string list" and processKey :: "'d processKey" and network prefix :: string
    and maxKeys :: nat and maxIterations :: "nat option" and ls :: "'d locals"
    and keys :: "string list"
  assume "\<not> isFinished ls \<and> withinIterations maxIterations (iterationCount ls)"
  then show "((bucket, processKey, network, prefix, maxKeys, maxIterations, ls\<lparr>isFinished := True\<rparr>),
       (bucket, processKey, network, prefix, maxKeys, maxIterations, ls))
      \<in> measure (\<lambda>(bucket, processKey, network, prefix, maxKeys, maxIterations, ls).
          if isFinished ls then 0
          else 1 + card {k \<in> set bucket. case startAfter ls of None \<Rightarrow> True | Some s \<Rightarrow> s < k})"
    by simp
qed

declare processKeysLoop.simps [simp del]

text \<open>
  What a call of \<^verbatim>\<open>processKeys\<close> leaves: the number it returns and the world after it.
  \<open>r_committed\<close>, \<open>r_pages\<close> and \<open>r_results\<close> are instrumentation: whether the transaction
  was committed (or rolled back), and the loop's \<open>pages\<close> and \<open>results\<close>.
\<close>

record 'd archive =
  a_data :: 'd
  a_syncStatus :: ledger
  a_bus :: "DispatchInfo list"
  a_console :: "log_line list"

record 'd run =
  r_value :: nat
  r_world :: "'d archive"
  r_committed :: bool
  r_pages :: "string list list"
  r_results :: "DispatchInfo option list"

text \<open>
  \<^verbatim>\<open>processKeys\<close>. All writes of the keys and the cursor go through the one transaction
  opened at the start: on commit the world has them, on rollback its data and its sync
  statuses are as before the call.
\<close>

definition processKeys ::
  "string list \<Rightarrow> string \<Rightarrow> int \<Rightarrow> string \<Rightarrow> 'd processKey \<Rightarrow> nat option \<Rightarrow> nat option
     \<Rightarrow> 'd archive \<Rightarrow> 'd run" where
  "processKeys bucket network chainId prefix processKey maxKeys maxIterations w =
     (let lastSync = findWithPrefix (a_syncStatus w) chainId network prefix SOURCE_S3;
          (thrown, ls) =
            processKeysLoop bucket processKey network prefix
              (case maxKeys of None \<Rightarrow> 20 | Some n \<Rightarrow> n) maxIterations
              \<lparr> startAfter = (case lastSync of None \<Rightarrow> None | Some s \<Rightarrow> ss_key s),
                isFinished = False, iterationCount = 0, totalKeysProcessed = 0,
                tx_data = a_data w, buffer = a_bus w, pages = [], results = [] \<rparr>
      in case thrown of
           None \<Rightarrow>
             \<lparr> r_value = totalKeysProcessed ls,
               r_world = w\<lparr>a_data := tx_data ls,
                           a_syncStatus :=
                             save \<lparr> ss_chainId = chainId, ss_network = network,
                                    ss_key = startAfter ls, ss_prefix = prefix,
                                    ss_source = SOURCE_S3 \<rparr> (a_syncStatus w),
                           a_bus := buffer ls\<rparr>,
               r_committed = True, r_pages = pages ls, r_results = results ls \<rparr>
         | Some e \<Rightarrow>
             \<lparr> r_value = totalKeysProcessed ls,
               r_world = w\<lparr>a_bus := buffer ls,
                           a_console := a_console w
                             @ [Error ''Error processing block headers from storage:'' e]\<rparr>,
               r_committed = False, r_pages = pages ls, r_results = results ls \<rparr>)"

text \<open>
  A key processor for concrete runs: it persists the key (the data is the list of persisted
  keys) and returns a \<^verbatim>\<open>DispatchInfo\<close> for it, and throws on the keys of \<open>bad\<close>.
\<close>

definition exampleDispatch :: "string \<Rightarrow> DispatchInfo" where
  "exampleDispatch k =
     \<lparr> d_hash = k, d_chainId = ''0'', d_height = 1, d_requestKeys = [], d_qualifiedEventNames = [] \<rparr>"

definition processKeyFailingOn :: "string list \<Rightarrow> string list processKey" where
  "processKeyFailingOn bad network key persisted =
     (if key \<in> set bad then Inl (Thrown ''invalid payload'')
      else Inr (Some (exampleDispatch key), persisted @ [key]))"

definition emptyArchive :: "string list archive" where
  "emptyArchive = \<lparr> a_data = [], a_syncStatus = (\<lambda>i. None), a_bus = [], a_console = [] \<rparr>"

text \<open>
  The relation between the locals of the loop and its instrumentation, for a run that started
  from the stored key \<open>k0\<close> and the buffer \<open>q0\<close>: every page is a non-empty listing, taken
  after the stored key (the first) or after the last key of the page before it; the locals
  \<^verbatim>\<open>startAfter\<close>, \<^verbatim>\<open>totalKeysProcessed\<close> and \<^verbatim>\<open>iterationCount\<close> are what the pages say; no
  listed key is greater than the last one; and the buffer has received the non-null results.
\<close>

definition loopInv ::
  "string list \<Rightarrow> string \<Rightarrow> nat \<Rightarrow> string option \<Rightarrow> DispatchInfo list \<Rightarrow> 'd locals \<Rightarrow> bool" where
  "loopInv bucket prefix maxKeys k0 q0 ls \<longleftrightarrow>
     [] \<notin> set (pages ls)
   \<and> startAfter ls = (if pages ls = [] then k0 else Some (last (last (pages ls))))
   \<and> (\<forall>i < length (pages ls).
        pages ls ! i = listS3Objects bucket prefix maxKeys
                         (if i = 0 then k0 else Some (last (pages ls ! (i - 1)))))
   \<and> (\<forall>k \<in> set (concat (pages ls)). k \<le> last (last (pages ls)))
   \<and> buffer ls = q0 @ nonNull (results ls)
   \<and> length (results ls) = length (concat (pages ls))
   \<and> totalKeysProcessed ls = length (concat (pages ls))
   \<and> iterationCount ls = length (pages ls)"

section \<open>Gap filler: \<^verbatim>\<open>startRetryErrors\<close>\<close>















section \<open>Guards reconciler: \<^verbatim>\<open>backfillGuards\<close>\<close>



















section \<open>Query repositories\<close>

subsection \<open>\<^verbatim>\<open>EventDbRepository.getBlockEvents\<close>\<close>

text \<open>The values of \<^verbatim>\<open>queryParams\<close>; the placeholder \<^verbatim>\<open>$n\<close> of a query is its \<open>n\<close>-th element.\<close>

datatype sql_value = SqlNumber int | SqlText string

definition placeholder :: "sql_value list \<Rightarrow> nat \<Rightarrow> sql_value option" where
  "placeholder queryParams n =
     (if 0 < n \<and> n \<le> length queryParams then Some (queryParams ! (n - 1)) else None)"

record GetBlockEventsParams =
  gp_hash :: string
  gp_after :: "string option"
  gp_before :: "string option"
  gp_first :: "int option"
  gp_last :: "int option"

text \<open>
  \<^verbatim>\<open>getPaginationParams\<close> (\<^verbatim>\<open>../../pagination\<close>) is not among the sources and is a parameter,
  from its argument object to the object it returns.
\<close>

record PaginationInput =
  pi_after :: "string option"
  pi_before :: "string option"
  pi_first :: "int option"
  pi_last :: "int option"

record PaginationParams =
  pp_limit :: int
  pp_order :: string
  pp_after :: "string option"
  pp_before :: "string option"

text \<open>\<^verbatim>\<open>if (before)\<close> on a cursor that may be absent: absent and the empty string are falsy.\<close>

definition supplied :: "string option \<Rightarrow> bool" where
  "supplied cursor = (case cursor of None \<Rightarrow> False | Some s \<Rightarrow> truthy s)"

text \<open>What \<^verbatim>\<open>getBlockEvents\<close> hands to the database: the parameters, and the text of
  \<^verbatim>\<open>conditions\<close> and of the order that it splices into the query.\<close>

record BlockEventsQuery =
  q_queryParams :: "sql_value list"
  q_conditions :: string
  q_order :: string

text \<open>
  The file holds two revisions of the repository. This is \<^verbatim>\<open>getBlockEvents\<close> of the first
  (lines 45 to 100): the conditions test the cursors of the request as they came.
\<close>

definition getBlockEvents ::
  "(PaginationInput \<Rightarrow> PaginationParams) \<Rightarrow> GetBlockEventsParams \<Rightarrow> BlockEventsQuery" where
  "getBlockEvents getPaginationParams params =
     (let pagination = getPaginationParams
            \<lparr> pi_after = gp_after params, pi_before = gp_before params,
              pi_first = gp_first params, pi_last = gp_last params \<rparr>;
          queryParams = [SqlNumber (pp_limit pagination), SqlText (gp_hash params)];
          conditions = [];
          (queryParams, conditions) =
            (if supplied (gp_before params)
             then (queryParams @ [SqlText (the (gp_before params))],
                   conditions @ CHR 0x0A # ''AND e.id < $3'')
             else (queryParams, conditions));
          (queryParams, conditions) =
            (if supplied (gp_after params)
             then (queryParams @ [SqlText (the (gp_after params))],
                   conditions @ CHR 0x0A # ''AND e.id > $3'')
             else (queryParams, conditions))
      in \<lparr> q_queryParams = queryParams, q_conditions = conditions, q_order = pp_order pagination \<rparr>)"

text \<open>
  \<^verbatim>\<open>getBlockEvents\<close> of the second revision (lines 462 to 514): the request's cursors go
  through \<^verbatim>\<open>getPaginationParams\<close>, and the conditions test the cursors it returns.
\<close>

definition getBlockEvents2 ::
  "(PaginationInput \<Rightarrow> PaginationParams) \<Rightarrow> GetBlockEventsParams \<Rightarrow> BlockEventsQuery" where
  "getBlockEvents2 getPaginationParams params =
     (let pagination = getPaginationParams
            \<lparr> pi_after = gp_after params, pi_before = gp_before params,
              pi_first = gp_first params, pi_last = gp_last params \<rparr>;
          queryParams = [SqlNumber (pp_limit pagination), SqlText (gp_hash params)];
          conditions = [];
          (queryParams, conditions) =
            (if supplied (pp_before pagination)
             then (queryParams @ [SqlText (the (pp_before pagination))],
                   conditions @ CHR 0x0A # ''AND e.id > $3'')
             else (queryParams, conditions));
          (queryParams, conditions) =
            (if supplied (pp_after pagination)
             then (queryParams @ [SqlText (the (pp_after pagination))],
                   conditions @ CHR 0x0A # ''AND e.id < $3'')
             else (queryParams, conditions))
      in \<lparr> q_queryParams = queryParams, q_conditions = conditions, q_order = pp_order pagination \<rparr>)"

text \<open>A pagination that passes the cursors on, with limit 20 and descending order.\<close>

definition examplePagination :: "PaginationInput \<Rightarrow> PaginationParams" where
  "examplePagination i =
     \<lparr> pp_limit = 20, pp_order = ''DESC'', pp_after = pi_after i, pp_before = pi_before i \<rparr>"

subsection \<open>\<^verbatim>\<open>getTotalCountOfBlockEvents\<close> of the two repositories\<close>

text \<open>The columns of \<^verbatim>\<open>Transactions\<close> and \<^verbatim>\<open>Events\<close> that the count query joins on.\<close>

record TransactionRow =
  t_id :: int
  t_blockId :: int

record EventRow =
  e_id :: int
  e_transactionId :: int

text \<open>\<^verbatim>\<open>BlockModel.findOne({ where: { hash } })\<close>: the first row with the hash, or null.\<close>

definition findOne :: "Block list \<Rightarrow> string \<Rightarrow> Block option" where
  "findOne rows blockHash = find (\<lambda>b. b_hash b = blockHash) rows"

text \<open>
  \<^verbatim>\<open>BlockDbRepository.getTotalCountOfBlockEvents\<close>: \<^verbatim>\<open>block?.transactionsCount || 0\<close>, where a
  missing block, a null attribute and 0 all give 0.
\<close>

definition BlockDb_getTotalCountOfBlockEvents :: "Block list \<Rightarrow> string \<Rightarrow> int" where
  "BlockDb_getTotalCountOfBlockEvents rows blockHash =
     (case findOne rows blockHash of
        None \<Rightarrow> 0
      | Some block \<Rightarrow>
          (case b_transactionsCount block of
             None \<Rightarrow> 0
           | Some n \<Rightarrow> if n \<noteq> 0 then n else 0))"

text \<open>
  \<^verbatim>\<open>EventDbRepository.getTotalCountOfBlockEvents\<close>: the \<^verbatim>\<open>COUNT(*)\<close> of the join of blocks,
  transactions and events for the hash.
\<close>

definition EventDb_getTotalCountOfBlockEvents ::
  "Block list \<Rightarrow> TransactionRow list \<Rightarrow> EventRow list \<Rightarrow> string \<Rightarrow> int" where
  "EventDb_getTotalCountOfBlockEvents bs ts es h =
     int (length (concat (map (\<lambda>b. concat (map (\<lambda>t. filter (\<lambda>e.
        b_id b = t_blockId t \<and> t_id t = e_transactionId e \<and> b_hash b = h) es) ts)) bs)))"

text \<open>The block that \<^verbatim>\<open>saveBlock\<close> stores for the example header, with one transaction that
  emitted two events.\<close>

definition exampleBlocks :: "Block list" where
  "exampleBlocks = [(blockAttribute (exampleHeader ''H'') examplePayload)\<lparr>b_id := 1,
      b_transactionsCount := Some 1\<rparr>]"

definition exampleTransactions :: "TransactionRow list" where
  "exampleTransactions = [\<lparr> t_id = 10, t_blockId = 1 \<rparr>]"

definition exampleEvents :: "EventRow list" where
  "exampleEvents = [\<lparr> e_id = 100, e_transactionId = 10 \<rparr>, \<lparr> e_id = 101, e_transactionId = 10 \<rparr>]"

section \<open>Properties\<close>

subsection \<open>Feature flags\<close>

lemma sint_64_cases:
  "sint (w :: 64 word) = (if 2 ^ 63 \<le> uint w then uint w - 2 ^ 64 else uint w)"
proof -
  have "sint w = signed_take_bit 63 (uint w)"
    by (simp add: sint_uint)
  also have "\<dots> = (if 2 ^ 63 \<le> uint w then uint w - 2 ^ 64 else uint w)"
  proof -
    have b: "0 \<le> uint w" "uint w < 2 ^ 64"
      using uint_bounded [of w] by simp_all
    show ?thesis
      using b by (simp add: signed_take_bit_eq_take_bit_shift take_bit_eq_mod)
        (smt (verit) mod_pos_pos_trivial mod_add_self2 minus_mod_self2)
  qed
  finally show ?thesis .
qed

text \<open>
  C9. For every unsigned 64-bit value \<open>f\<close> (an integer with \<open>0 \<le> f < 2^64\<close>), the
  two's-complement reinterpretation \<open>uint64ToInt64\<close> yields a signed 64-bit value, the same
  one the machine reinterpretation \<open>sint\<close> gives, and the inverse reinterpretation brings
  \<open>f\<close> back: the round trip is the identity on all \<open>2^64\<close> values.
\<close>

theorem featureFlags_roundtrip:
  assumes "0 \<le> f" and "f < 2 ^ 64"
  shows "int64ToUint64 (uint64ToInt64 f) = f
       \<and> - (2 ^ 63) \<le> uint64ToInt64 f \<and> uint64ToInt64 f < 2 ^ 63
       \<and> uint64ToInt64 f = sint (word_of_int f :: 64 word)"
proof -
  have u: "uint (word_of_int f :: 64 word) = f"
    using assms by (simp add: uint_word_of_int take_bit_eq_mod)
  have "uint64ToInt64 f = sint (word_of_int f :: 64 word)"
    unfolding sint_64_cases u by (simp add: uint64ToInt64_def)
  moreover have "int64ToUint64 (uint64ToInt64 f) = f"
    using assms by (simp add: int64ToUint64_def uint64ToInt64_def)
  moreover have "- (2 ^ 63) \<le> uint64ToInt64 f \<and> uint64ToInt64 f < 2 ^ 63"
    using assms by (simp add: uint64ToInt64_def)
  ultimately show ?thesis by simp
qed

theorem featureFlags_roundtrip_witness:
  "int64ToUint64 (uint64ToInt64 18446744073709551615) = 18446744073709551615
   \<and> uint64ToInt64 18446744073709551615 = - 1"
  using featureFlags_roundtrip [of 18446744073709551615]
  by (simp add: uint64ToInt64_def)

subsection \<open>Tip streamer\<close>


lemma saveBlock_cases:
  assumes "saveBlock ppk hdr p db = (r, db', lg)"
  shows "(r = None \<and> db' = db \<and> (\<exists>e. lg = [Error ''Error saving block to the database: '' e]))
       \<or> (\<exists>info b tables. r = Some info \<and> lg = []
            \<and> db' = db\<lparr>blocks := blocks db @ [b], payloadTables := tables\<rparr>
            \<and> b_hash b = h_hash hdr \<and> h_hash hdr \<notin> set (map b_hash (blocks db)))"
  using assms
  by (auto simp: saveBlock_def Block_create_def blockAttribute_def Let_def
      split: sum.splits if_splits prod.splits)

lemma onBlockHeader_seen:
  "h_hash hdr \<in> blocksAlreadyReceived st \<Longrightarrow> onBlockHeader ppk (BlockHeader hdr p) st = st"
  by (simp add: onBlockHeader_def)

lemma onBlockHeader_rolled_back:
  assumes "h_hash hdr \<notin> blocksAlreadyReceived st"
    and "fst (saveBlock ppk hdr p (s_db st)) = None"
  shows "onBlockHeader ppk (BlockHeader hdr p) st =
           st\<lparr>blocksAlreadyReceived := insert (h_hash hdr) (blocksAlreadyReceived st),
              s_saveBlockCalls := s_saveBlockCalls st @ [h_hash hdr],
              s_console := s_console st @ snd (snd (saveBlock ppk hdr p (s_db st))),
              s_db := (s_db st)\<lparr>streamingErrors := streamingErrors (s_db st)
                          @ [\<lparr>se_hash = h_hash hdr, se_chainId = h_chainId hdr\<rparr>]\<rparr>\<rparr>"
proof -
  obtain r db' lg where s: "saveBlock ppk hdr p (s_db st) = (r, db', lg)"
    by (cases "saveBlock ppk hdr p (s_db st)") auto
  with assms(2) have r: "r = None" by simp
  with saveBlock_cases [OF s] have db: "db' = s_db st" by auto
  show ?thesis
    using assms(1) by (simp add: onBlockHeader_def s r db StreamingError_create_def)
qed

lemma onBlockHeader_committed:
  assumes "h_hash hdr \<notin> blocksAlreadyReceived st"
    and "saveBlock ppk hdr p (s_db st) = (Some info, db', lg)"
  shows "onBlockHeader ppk (BlockHeader hdr p) st =
           st\<lparr>blocksAlreadyReceived := insert (h_hash hdr) (blocksAlreadyReceived st),
              s_saveBlockCalls := s_saveBlockCalls st @ [h_hash hdr],
              s_console := s_console st,
              s_db := db'\<rparr>"
proof -
  from saveBlock_cases [OF assms(2)] have "lg = []" by auto
  then show ?thesis
    using assms by (simp add: onBlockHeader_def)
qed





lemma onBlockHeader_calls:
  assumes "h_hash hdr \<notin> blocksAlreadyReceived st"
  shows "s_saveBlockCalls (onBlockHeader ppk (BlockHeader hdr p) st) = s_saveBlockCalls st @ [h_hash hdr]
       \<and> blocksAlreadyReceived (onBlockHeader ppk (BlockHeader hdr p) st)
            = insert (h_hash hdr) (blocksAlreadyReceived st)"
proof -
  obtain r db' lg where s: "saveBlock ppk hdr p (s_db st) = (r, db', lg)"
    by (cases "saveBlock ppk hdr p (s_db st)") auto
  show ?thesis
  proof (cases r)
    case None
    then have "fst (saveBlock ppk hdr p (s_db st)) = None" using s by simp
    from onBlockHeader_rolled_back [OF assms this] show ?thesis by simp
  next
    case (Some info)
    from onBlockHeader_committed [OF assms s [unfolded Some]] show ?thesis by simp
  qed
qed



text \<open>
  C5. When \<^verbatim>\<open>saveBlock\<close> is called for a streamed block and returns null, one row
  \<open>{hash, chainId}\<close> of that block is appended to \<^verbatim>\<open>StreamingErrors\<close> and the blocks and
  payload tables stay as they were; when it returns a \<^verbatim>\<open>DispatchInfo\<close>, no row is appended.
  In both cases the next event is handled: a following event with a new hash reaches
  \<^verbatim>\<open>saveBlock\<close>.
\<close>

theorem streaming_error_on_null:
  assumes fresh: "h_hash hdr \<notin> blocksAlreadyReceived st"
  shows "(fst (saveBlock ppk hdr p (s_db st)) = None \<longrightarrow>
            streamingErrors (s_db (onBlockHeader ppk (BlockHeader hdr p) st))
              = streamingErrors (s_db st) @ [\<lparr>se_hash = h_hash hdr, se_chainId = h_chainId hdr\<rparr>]
          \<and> blocks (s_db (onBlockHeader ppk (BlockHeader hdr p) st)) = blocks (s_db st)
          \<and> payloadTables (s_db (onBlockHeader ppk (BlockHeader hdr p) st)) = payloadTables (s_db st))
       \<and> (fst (saveBlock ppk hdr p (s_db st)) \<noteq> None \<longrightarrow>
            streamingErrors (s_db (onBlockHeader ppk (BlockHeader hdr p) st)) = streamingErrors (s_db st))
       \<and> (\<forall>hdr2 p2. h_hash hdr2 \<notin> insert (h_hash hdr) (blocksAlreadyReceived st) \<longrightarrow>
            s_saveBlockCalls (runStream ppk st [Event (BlockHeader hdr p), Event (BlockHeader hdr2 p2)])
              = s_saveBlockCalls st @ [h_hash hdr, h_hash hdr2])"
proof -
  let ?st1 = "onBlockHeader ppk (BlockHeader hdr p) st"
  have null: "fst (saveBlock ppk hdr p (s_db st)) = None \<Longrightarrow>
      streamingErrors (s_db ?st1)
        = streamingErrors (s_db st) @ [\<lparr>se_hash = h_hash hdr, se_chainId = h_chainId hdr\<rparr>]
      \<and> blocks (s_db ?st1) = blocks (s_db st) \<and> payloadTables (s_db ?st1) = payloadTables (s_db st)"
    using onBlockHeader_rolled_back [OF fresh, of ppk p] by simp
  have ok: "streamingErrors (s_db ?st1) = streamingErrors (s_db st)"
    if "fst (saveBlock ppk hdr p (s_db st)) \<noteq> None"
  proof -
    from that obtain info db' lg where s: "saveBlock ppk hdr p (s_db st) = (Some info, db', lg)"
      by (cases "saveBlock ppk hdr p (s_db st)") auto
    from saveBlock_cases [OF s] onBlockHeader_committed [OF fresh s] show ?thesis by auto
  qed
  have next_event: "s_saveBlockCalls (runStream ppk st [Event (BlockHeader hdr p), Event (BlockHeader hdr2 p2)])
              = s_saveBlockCalls st @ [h_hash hdr, h_hash hdr2]"
    if "h_hash hdr2 \<notin> insert (h_hash hdr) (blocksAlreadyReceived st)" for hdr2 p2
  proof -
    from onBlockHeader_calls [OF fresh, of ppk p]
    have c1: "s_saveBlockCalls ?st1 = s_saveBlockCalls st @ [h_hash hdr]"
      and r1: "blocksAlreadyReceived ?st1 = insert (h_hash hdr) (blocksAlreadyReceived st)" by simp_all
    from that r1 have "h_hash hdr2 \<notin> blocksAlreadyReceived ?st1" by simp
    from onBlockHeader_calls [OF this, of ppk p2] c1 show ?thesis by simp
  qed
  from null ok next_event show ?thesis by blast
qed

theorem streaming_error_on_null_witness:
  "streamingErrors (s_db (onBlockHeader payloadFails (BlockHeader (exampleHeader ''H'') examplePayload) emptyStreamer))
     = [\<lparr>se_hash = ''H'', se_chainId = 3\<rparr>]
   \<and> blocks (s_db (onBlockHeader payloadFails (BlockHeader (exampleHeader ''H'') examplePayload) emptyStreamer)) = []
   \<and> s_saveBlockCalls (runStream payloadFails emptyStreamer
        [Event (BlockHeader (exampleHeader ''H'') examplePayload),
         Event (BlockHeader (exampleHeader ''G'') examplePayload)]) = [''H'', ''G'']"
proof -
  have hH: "h_hash (exampleHeader ''H'') = ''H''" and cH: "h_chainId (exampleHeader ''H'') = 3"
    and hG: "h_hash (exampleHeader ''G'') = ''G''"
    by (simp_all add: exampleHeader_def)
  have fresh: "h_hash (exampleHeader ''H'') \<notin> blocksAlreadyReceived emptyStreamer"
    by (simp add: emptyStreamer_def)
  have fails: "fst (saveBlock payloadFails (exampleHeader ''H'') examplePayload (s_db emptyStreamer)) = None"
    by (simp add: saveBlock_def Block_create_def emptyStreamer_def payloadFails_def Let_def)
  have empty: "s_saveBlockCalls emptyStreamer = []" "streamingErrors (s_db emptyStreamer) = []"
    "blocks (s_db emptyStreamer) = []" "blocksAlreadyReceived emptyStreamer = {}"
    by (simp_all add: emptyStreamer_def)
  from streaming_error_on_null [OF fresh, of payloadFails examplePayload]
  show ?thesis
    using fails by (simp add: hH hG cH empty)
qed

subsection \<open>Archive backfiller\<close>


lemma nonNull_append: "nonNull (xs @ ys) = nonNull xs @ nonNull ys"
  by (simp add: nonNull_def)

lemma processAll_length:
  "processAll pk network keys d = Inr (res, d') \<Longrightarrow> length res = length keys"
  by (induction keys arbitrary: d res d') (auto split: sum.splits prod.splits)

lemma listS3Objects_sorted: "sorted (listS3Objects bucket prefix maxKeys c)"
  unfolding listS3Objects_def by (intro sorted_wrt_take sorted_wrt_filter) simp

lemma listS3Objects_after:
  "k \<in> set (listS3Objects bucket prefix maxKeys (Some s)) \<Longrightarrow> s < k"
  unfolding listS3Objects_def by (auto dest: in_set_takeD)

lemma sorted_le_last:
  assumes "sorted xs" and "k \<in> set xs"
  shows "k \<le> last xs"
proof -
  from assms(2) obtain i where i: "i < length xs" and k: "xs ! i = k"
    by (auto simp: in_set_conv_nth)
  from i have ne: "xs \<noteq> []" by auto
  from i have "i \<le> length xs - 1" by simp
  with assms(1) i have "xs ! i \<le> xs ! (length xs - 1)"
    by (intro sorted_nth_mono) simp_all
  with k ne show ?thesis by (simp add: last_conv_nth)
qed

lemma loopInv_finished:
  "loopInv bucket prefix maxKeys k0 q0 ls \<Longrightarrow> loopInv bucket prefix maxKeys k0 q0 (ls\<lparr>isFinished := True\<rparr>)"
  by (simp add: loopInv_def)

lemma loopInv_page:
  assumes inv: "loopInv bucket prefix maxKeys k0 q0 ls"
    and keys: "keys = listS3Objects bucket prefix maxKeys (startAfter ls)"
    and some: "0 < length keys"
    and res: "length res = length keys"
  shows "loopInv bucket prefix maxKeys k0 q0
           (ls\<lparr>tx_data := d,
               buffer := addPublishEvents (nonNull res) (buffer ls),
               totalKeysProcessed := totalKeysProcessed ls + length keys,
               startAfter := Some (last keys),
               iterationCount := iterationCount ls + 1,
               pages := pages ls @ [keys],
               results := results ls @ res\<rparr>)"
proof -
  from some have ne: "keys \<noteq> []" by auto
  from inv have
    i1: "[] \<notin> set (pages ls)" and
    i2: "startAfter ls = (if pages ls = [] then k0 else Some (last (last (pages ls))))" and
    i3: "\<forall>i < length (pages ls).
        pages ls ! i = listS3Objects bucket prefix maxKeys
                         (if i = 0 then k0 else Some (last (pages ls ! (i - 1))))" and
    i4: "\<forall>k \<in> set (concat (pages ls)). k \<le> last (last (pages ls))" and
    i5: "buffer ls = q0 @ nonNull (results ls)" and
    i6: "length (results ls) = length (concat (pages ls))" and
    i7: "totalKeysProcessed ls = length (concat (pages ls))" and
    i8: "iterationCount ls = length (pages ls)"
    by (simp_all add: loopInv_def)
  have sorted: "sorted keys"
    unfolding keys by (rule listS3Objects_sorted)
  have n3: "(pages ls @ [keys]) ! i = listS3Objects bucket prefix maxKeys
              (if i = 0 then k0 else Some (last ((pages ls @ [keys]) ! (i - 1))))"
    if "i < length (pages ls @ [keys])" for i
  proof (cases "i < length (pages ls)")
    case True
    then have "i - 1 < length (pages ls)" by simp
    with True i3 show ?thesis by (simp add: nth_append)
  next
    case False
    with that have i: "i = length (pages ls)" by simp
    show ?thesis
    proof (cases "pages ls = []")
      case True
      with i i2 keys show ?thesis by simp
    next
      case False
      then have "pages ls ! (length (pages ls) - 1) = last (pages ls)"
        by (simp add: last_conv_nth)
      with False i i2 keys show ?thesis by (simp add: nth_append)
    qed
  qed
  have n4: "k \<le> last keys" if "k \<in> set (concat (pages ls)) \<union> set keys" for k
  proof (cases "k \<in> set keys")
    case True
    with sorted show ?thesis by (rule sorted_le_last)
  next
    case False
    with that have old: "k \<in> set (concat (pages ls))" by simp
    then have pne: "pages ls \<noteq> []" by auto
    from old i4 have le: "k \<le> last (last (pages ls))" by blast
    from pne i2 have "startAfter ls = Some (last (last (pages ls)))" by simp
    moreover from ne have "last keys \<in> set keys" by simp
    ultimately have "last (last (pages ls)) < last keys"
      unfolding keys by (auto dest: listS3Objects_after)
    with le show ?thesis by simp
  qed
  show ?thesis
    unfolding loopInv_def
    using i1 ne n3 n4 i5 i6 i7 i8 res
    by (simp add: addPublishEvents_def nonNull_append)
qed

lemma processKeysLoop_inv:
  assumes "processKeysLoop bucket pk network prefix maxKeys maxIt ls = (thrown, ls')"
    and "loopInv bucket prefix maxKeys k0 q0 ls"
  shows "loopInv bucket prefix maxKeys k0 q0 ls'"
  using assms
proof (induction bucket pk network prefix maxKeys maxIt ls rule: processKeysLoop.induct)
  case (1 bucket pk network prefix maxKeys maxIt ls)
  let ?keys = "listS3Objects bucket prefix maxKeys (startAfter ls)"
  show ?case
  proof (cases "\<not> isFinished ls \<and> withinIterations maxIt (iterationCount ls)")
    case False
    with "1.prems"(1) have "ls' = ls"
      by (subst (asm) processKeysLoop.simps) auto
    with "1.prems"(2) show ?thesis by simp
  next
    case True
    show ?thesis
    proof (cases "0 < length ?keys")
      case False
      with True "1.prems"(1) have
        "processKeysLoop bucket pk network prefix maxKeys maxIt (ls\<lparr>isFinished := True\<rparr>) = (thrown, ls')"
        by (subst (asm) processKeysLoop.simps) (simp add: Let_def)
      from "1.IH"(2) [OF True refl False this loopInv_finished [OF "1.prems"(2)]]
      show ?thesis .
    next
      case some: True
      show ?thesis
      proof (cases "processAll pk network ?keys (tx_data ls)")
        case (Inl e)
        with True some "1.prems"(1) have "ls' = ls"
          by (subst (asm) processKeysLoop.simps) (simp add: Let_def)
        with "1.prems"(2) show ?thesis by simp
      next
        case (Inr x)
        obtain res d where x: "x = (res, d)" by (cases x)
        let ?ls = "ls\<lparr>tx_data := d,
               buffer := addPublishEvents (nonNull res) (buffer ls),
               totalKeysProcessed := totalKeysProcessed ls + length ?keys,
               startAfter := Some (last ?keys),
               iterationCount := iterationCount ls + 1,
               pages := pages ls @ [?keys],
               results := results ls @ res\<rparr>"
        from True some Inr x "1.prems"(1) have run:
          "processKeysLoop bucket pk network prefix maxKeys maxIt ?ls = (thrown, ls')"
          by (subst (asm) processKeysLoop.simps) (simp add: Let_def)
        from Inr x have "length res = length ?keys"
          by (auto dest: processAll_length)
        from loopInv_page [OF "1.prems"(2) refl some this]
        have inv: "loopInv bucket prefix maxKeys k0 q0 ?ls" .
        from "1.IH"(1) [OF True refl some Inr x [symmetric] run inv]
        show ?thesis .
      qed
    qed
  qed
qed

lemma processKeysLoop_empty_listing:
  assumes "listS3Objects bucket prefix maxKeys (startAfter ls) = []" and "\<not> isFinished ls"
    and "iterationCount ls = 0"
  shows "processKeysLoop bucket pk network prefix maxKeys maxIt ls = (None, ls\<lparr>isFinished := True\<rparr>)"
proof -
  have w: "withinIterations maxIt 0"
    by (auto simp: withinIterations_def split: option.splits)
  have "processKeysLoop bucket pk network prefix maxKeys maxIt ls
      = processKeysLoop bucket pk network prefix maxKeys maxIt (ls\<lparr>isFinished := True\<rparr>)"
    using assms w by (subst processKeysLoop.simps) (simp add: Let_def)
  also have "\<dots> = (None, ls\<lparr>isFinished := True\<rparr>)"
    by (subst processKeysLoop.simps) simp
  finally show ?thesis .
qed


text \<open>
  A call of \<^verbatim>\<open>processKeys\<close> in terms of its loop: the loop starts from the stored key and
  the buffer of the world, and its final locals satisfy the relation above.
\<close>

lemma processKeys_loop:
  fixes w :: "'d archive"
  assumes "k0 = cursorKey (a_syncStatus w) chainId network prefix SOURCE_S3"
    and "n = (case maxKeys of None \<Rightarrow> 20 | Some m \<Rightarrow> m)"
    and "ls0 = \<lparr> startAfter = k0, isFinished = False, iterationCount = 0, totalKeysProcessed = 0,
                  tx_data = a_data w, buffer = a_bus w, pages = [], results = [] \<rparr>"
  obtains thrown ls where
    "processKeysLoop bucket pk network prefix n maxIterations ls0 = (thrown, ls)"
    "loopInv bucket prefix n k0 (a_bus w) ls"
    "processKeys bucket network chainId prefix pk maxKeys maxIterations w =
       (case thrown of
           None \<Rightarrow>
             \<lparr> r_value = totalKeysProcessed ls,
               r_world = w\<lparr>a_data := tx_data ls,
                           a_syncStatus :=
                             save \<lparr> ss_chainId = chainId, ss_network = network,
                                    ss_key = startAfter ls, ss_prefix = prefix,
                                    ss_source = SOURCE_S3 \<rparr> (a_syncStatus w),
                           a_bus := buffer ls\<rparr>,
               r_committed = True, r_pages = pages ls, r_results = results ls \<rparr>
         | Some e \<Rightarrow>
             \<lparr> r_value = totalKeysProcessed ls,
               r_world = w\<lparr>a_bus := buffer ls,
                           a_console := a_console w
                             @ [Error ''Error processing block headers from storage:'' e]\<rparr>,
               r_committed = False, r_pages = pages ls, r_results = results ls \<rparr>)"
proof -
  obtain thrown ls where run: "processKeysLoop bucket pk network prefix n maxIterations ls0 = (thrown, ls)"
    by (cases "processKeysLoop bucket pk network prefix n maxIterations ls0") auto
  have "loopInv bucket prefix n k0 (a_bus w) ls0"
    by (simp add: loopInv_def assms(3) nonNull_def)
  from processKeysLoop_inv [OF run this] have inv: "loopInv bucket prefix n k0 (a_bus w) ls" .
  have "processKeys bucket network chainId prefix pk maxKeys maxIterations w =
       (case thrown of
           None \<Rightarrow>
             \<lparr> r_value = totalKeysProcessed ls,
               r_world = w\<lparr>a_data := tx_data ls,
                           a_syncStatus :=
                             save \<lparr> ss_chainId = chainId, ss_network = network,
                                    ss_key = startAfter ls, ss_prefix = prefix,
                                    ss_source = SOURCE_S3 \<rparr> (a_syncStatus w),
                           a_bus := buffer ls\<rparr>,
               r_committed = True, r_pages = pages ls, r_results = results ls \<rparr>
         | Some e \<Rightarrow>
             \<lparr> r_value = totalKeysProcessed ls,
               r_world = w\<lparr>a_bus := buffer ls,
                           a_console := a_console w
                             @ [Error ''Error processing block headers from storage:'' e]\<rparr>,
               r_committed = False, r_pages = pages ls, r_results = results ls \<rparr>)"
    using run unfolding processKeys_def assms cursorKey_def by (simp add: Let_def)
  with run inv show thesis by (rule that)
qed

lemma cursorKey_save:
  "cursorKey (save \<lparr> ss_chainId = chainId, ss_network = network, ss_key = k, ss_prefix = prefix,
      ss_source = src \<rparr> rows) chainId network prefix src = k"
  by (simp add: cursorKey_def save_def findWithPrefix_def)

text \<open>
  C3. When a run of \<^verbatim>\<open>processKeys\<close> commits, the key stored for (chainId, network, prefix,
  \<^verbatim>\<open>SOURCE_S3\<close>) is the last key of the last non-empty page the listing returned in the run,
  and the key stored before when no page was returned. Each page is the listing taken after
  the stored key (the first page) or after the last key of the page before it; the last key
  of the final page is the lexicographic maximum of that page and of all keys listed in the
  run. When the first listing is empty, the run commits with no page processed, returns 0,
  and the stored key is the one stored before.
\<close>

theorem archive_cursor:
  fixes w :: "'d archive"
  assumes r: "r = processKeys bucket network chainId prefix pk maxKeys maxIterations w"
    and k0: "k0 = cursorKey (a_syncStatus w) chainId network prefix SOURCE_S3"
    and n: "n = (case maxKeys of None \<Rightarrow> 20 | Some m \<Rightarrow> m)"
  shows "(r_committed r \<longrightarrow>
            cursorKey (a_syncStatus (r_world r)) chainId network prefix SOURCE_S3
              = (if r_pages r = [] then k0 else Some (last (last (r_pages r))))
          \<and> [] \<notin> set (r_pages r)
          \<and> (\<forall>i < length (r_pages r).
                r_pages r ! i = listS3Objects bucket prefix n
                                  (if i = 0 then k0 else Some (last (r_pages r ! (i - 1)))))
          \<and> (r_pages r \<noteq> [] \<longrightarrow>
                last (last (r_pages r)) = Max (set (last (r_pages r)))
              \<and> last (last (r_pages r)) = Max (set (concat (r_pages r)))))
       \<and> (listS3Objects bucket prefix n k0 = [] \<longrightarrow>
            r_committed r \<and> r_pages r = [] \<and> r_value r = 0
          \<and> cursorKey (a_syncStatus (r_world r)) chainId network prefix SOURCE_S3 = k0)"
proof -
  define ls0 :: "'d locals" where
    "ls0 = \<lparr> startAfter = k0, isFinished = False, iterationCount = 0, totalKeysProcessed = 0,
             tx_data = a_data w, buffer = a_bus w, pages = [], results = [] \<rparr>"
  from processKeys_loop [OF k0 n ls0_def, where bucket = bucket and pk = pk and maxIterations = maxIterations]
  obtain thrown ls where
    run: "processKeysLoop bucket pk network prefix n maxIterations ls0 = (thrown, ls)" and
    inv: "loopInv bucket prefix n k0 (a_bus w) ls" and
    res: "r = (case thrown of
           None \<Rightarrow>
             \<lparr> r_value = totalKeysProcessed ls,
               r_world = w\<lparr>a_data := tx_data ls,
                           a_syncStatus :=
                             save \<lparr> ss_chainId = chainId, ss_network = network,
                                    ss_key = startAfter ls, ss_prefix = prefix,
                                    ss_source = SOURCE_S3 \<rparr> (a_syncStatus w),
                           a_bus := buffer ls\<rparr>,
               r_committed = True, r_pages = pages ls, r_results = results ls \<rparr>
         | Some e \<Rightarrow>
             \<lparr> r_value = totalKeysProcessed ls,
               r_world = w\<lparr>a_bus := buffer ls,
                           a_console := a_console w
                             @ [Error ''Error processing block headers from storage:'' e]\<rparr>,
               r_committed = False, r_pages = pages ls, r_results = results ls \<rparr>)"
    unfolding r by blast
  from inv have
    i1: "[] \<notin> set (pages ls)" and
    i2: "startAfter ls = (if pages ls = [] then k0 else Some (last (last (pages ls))))" and
    i3: "\<forall>i < length (pages ls).
        pages ls ! i = listS3Objects bucket prefix n
                         (if i = 0 then k0 else Some (last (pages ls ! (i - 1))))" and
    i4: "\<forall>k \<in> set (concat (pages ls)). k \<le> last (last (pages ls))"
    by (simp_all add: loopInv_def)
  have pages: "r_pages r = pages ls"
    using res by (simp split: option.splits)
  have maxima: "last (last (pages ls)) = Max (set (last (pages ls)))
              \<and> last (last (pages ls)) = Max (set (concat (pages ls)))" if ne: "pages ls \<noteq> []"
  proof -
    from ne i1 have lne: "last (pages ls) \<noteq> []"
      using last_in_set by metis
    then have mem: "last (last (pages ls)) \<in> set (last (pages ls))" by simp
    from ne have sub: "set (last (pages ls)) \<subseteq> set (concat (pages ls))"
      using last_in_set by fastforce
    have "Max (set (concat (pages ls))) = last (last (pages ls))"
      using mem sub i4 by (intro Max_eqI) auto
    moreover have "Max (set (last (pages ls))) = last (last (pages ls))"
      using mem sub i4 by (intro Max_eqI) auto
    ultimately show ?thesis by simp
  qed
  have committed: "cursorKey (a_syncStatus (r_world r)) chainId network prefix SOURCE_S3
              = (if r_pages r = [] then k0 else Some (last (last (r_pages r))))"
    if "r_committed r"
  proof -
    from that res have "thrown = None" by (auto split: option.splits)
    with res i2 show ?thesis by (simp add: cursorKey_save)
  qed
  have empty: "r_committed r \<and> r_pages r = [] \<and> r_value r = 0
          \<and> cursorKey (a_syncStatus (r_world r)) chainId network prefix SOURCE_S3 = k0"
    if "listS3Objects bucket prefix n k0 = []"
  proof -
    from that have "processKeysLoop bucket pk network prefix n maxIterations ls0
        = (None, ls0\<lparr>isFinished := True\<rparr>)"
      by (intro processKeysLoop_empty_listing) (simp_all add: ls0_def)
    with run have "thrown = None" "ls = ls0\<lparr>isFinished := True\<rparr>" by simp_all
    with res show ?thesis by (simp add: ls0_def cursorKey_save)
  qed
  from committed empty maxima i1 i3 show ?thesis
    unfolding pages by blast
qed


theorem archive_cursor_witness:
  "cursorKey (a_syncStatus (r_world
       (processKeys [''h/k3'', ''h/k1'', ''h/k2'', ''x''] ''mainnet01'' 0 ''h/''
          (processKeyFailingOn []) (Some 2) None emptyArchive))) 0 ''mainnet01'' ''h/'' SOURCE_S3
     = Some ''h/k3''
   \<and> cursorKey (a_syncStatus (r_world
       (processKeys [''x''] ''mainnet01'' 0 ''h/'' (processKeyFailingOn []) None None emptyArchive)))
       0 ''mainnet01'' ''h/'' SOURCE_S3
     = None"
proof -
  let ?r = "processKeys [''h/k3'', ''h/k1'', ''h/k2'', ''x''] ''mainnet01'' 0 ''h/''
          (processKeyFailingOn []) (Some 2) None emptyArchive"
  have committed: "r_committed ?r"
    by code_simp
  have pages: "r_pages ?r = [[''h/k1'', ''h/k2''], [''h/k3'']]"
    by code_simp
  from archive_cursor [OF refl refl refl, of "[''h/k3'', ''h/k1'', ''h/k2'', ''x'']" "''mainnet01''" 0
      "''h/''" "processKeyFailingOn []" "Some 2" None emptyArchive] committed
  have "cursorKey (a_syncStatus (r_world ?r)) 0 ''mainnet01'' ''h/'' SOURCE_S3
      = (if r_pages ?r = [] then cursorKey (a_syncStatus emptyArchive) 0 ''mainnet01'' ''h/'' SOURCE_S3
         else Some (last (last (r_pages ?r))))"
    by blast
  then have first: "cursorKey (a_syncStatus (r_world ?r)) 0 ''mainnet01'' ''h/'' SOURCE_S3 = Some ''h/k3''"
    by (simp add: pages)
  let ?e = "processKeys [''x''] ''mainnet01'' 0 ''h/'' (processKeyFailingOn []) None None emptyArchive"
  have k0: "cursorKey (a_syncStatus emptyArchive) 0 ''mainnet01'' ''h/'' SOURCE_S3 = None"
    by (simp add: emptyArchive_def cursorKey_def findWithPrefix_def)
  have listing: "listS3Objects [''x''] ''h/'' (case None of None \<Rightarrow> 20 | Some m \<Rightarrow> m)
      (cursorKey (a_syncStatus emptyArchive) 0 ''mainnet01'' ''h/'' SOURCE_S3) = []"
    unfolding k0 by code_simp
  from archive_cursor [OF refl refl refl, of "[''x'']" "''mainnet01''" 0
      "''h/''" "processKeyFailingOn []" None None emptyArchive] listing
  have "cursorKey (a_syncStatus (r_world ?e)) 0 ''mainnet01'' ''h/'' SOURCE_S3
      = cursorKey (a_syncStatus emptyArchive) 0 ''mainnet01'' ''h/'' SOURCE_S3"
    by blast
  with k0 first show ?thesis by simp
qed

text \<open>
  Whatever the events, the listener and the timer leave the publish buffer as it is: the
  \<^verbatim>\<open>DispatchInfo\<close> that \<^verbatim>\<open>saveBlock\<close> returns goes nowhere.
\<close>

lemma onBlockHeader_bus: "s_bus (onBlockHeader ppk e st) = s_bus st"
proof (cases e)
  case (Rejected x)
  then show ?thesis by (simp add: onBlockHeader_def)
next
  case (BlockHeader hdr p)
  show ?thesis
  proof (cases "h_hash hdr \<in> blocksAlreadyReceived st")
    case True
    with BlockHeader show ?thesis by (simp add: onBlockHeader_seen)
  next
    case False
    obtain r db' lg where s: "saveBlock ppk hdr p (s_db st) = (r, db', lg)"
      by (cases "saveBlock ppk hdr p (s_db st)") auto
    show ?thesis
    proof (cases r)
      case None
      then have "fst (saveBlock ppk hdr p (s_db st)) = None" using s by simp
      from onBlockHeader_rolled_back [OF False this] BlockHeader show ?thesis by simp
    next
      case (Some info)
      from onBlockHeader_committed [OF False s [unfolded Some]] BlockHeader show ?thesis by simp
    qed
  qed
qed

lemma runStream_bus: "s_bus (runStream ppk st ins) = s_bus st"
proof (induction ins arbitrary: st)
  case Nil
  show ?case by simp
next
  case (Cons i ins)
  have "s_bus (streamStep ppk i st) = s_bus st"
    by (cases i) (simp_all add: onBlockHeader_bus onClearTimer_def)
  with Cons.IH [of "streamStep ppk i st"] show ?case by simp
qed

text \<open>
  C1. A streamed block that is new and whose payload is processed: the transaction of
  \<^verbatim>\<open>saveBlock\<close> commits, the block row is stored and \<^verbatim>\<open>saveBlock\<close> returns the
  \<^verbatim>\<open>DispatchInfo\<close> of the block; the listener only tests it for null, and the publish buffer
  is empty before and after: no record is appended for the committed transaction. An archive
  run with one key per page whose second key fails: the transaction is rolled back and
  nothing is persisted, and the record of the first key, appended before the failure, is on
  the buffer.
\<close>

theorem dispatch_not_one_per_commit:
  "map_option d_hash (fst (saveBlock payloadOk (exampleHeader ''H'') examplePayload (s_db emptyStreamer)))
     = Some ''H''
   \<and> map b_hash (blocks (s_db
        (onBlockHeader payloadOk (BlockHeader (exampleHeader ''H'') examplePayload) emptyStreamer)))
     = [''H'']
   \<and> s_bus emptyStreamer = []
   \<and> s_bus (onBlockHeader payloadOk (BlockHeader (exampleHeader ''H'') examplePayload) emptyStreamer)
     = []
   \<and> \<not> r_committed (processKeys [''h/k1'', ''h/k2''] ''mainnet01'' 0 ''h/''
        (processKeyFailingOn [''h/k2'']) (Some 1) None emptyArchive)
   \<and> a_data (r_world (processKeys [''h/k1'', ''h/k2''] ''mainnet01'' 0 ''h/''
        (processKeyFailingOn [''h/k2'']) (Some 1) None emptyArchive)) = []
   \<and> a_bus emptyArchive = []
   \<and> a_bus (r_world (processKeys [''h/k1'', ''h/k2''] ''mainnet01'' 0 ''h/''
        (processKeyFailingOn [''h/k2'']) (Some 1) None emptyArchive))
     = [exampleDispatch ''h/k1'']"
  by code_simp

text \<open>
  A run that rolls back leaves the data and the sync statuses as they were and logs the
  error.
\<close>

lemma processKeys_rollback:
  fixes w :: "'d archive"
  assumes "\<not> r_committed (processKeys bucket network chainId prefix pk maxKeys maxIterations w)"
  shows "a_data (r_world (processKeys bucket network chainId prefix pk maxKeys maxIterations w)) = a_data w
       \<and> a_syncStatus (r_world (processKeys bucket network chainId prefix pk maxKeys maxIterations w))
           = a_syncStatus w
       \<and> (\<exists>e. a_console (r_world (processKeys bucket network chainId prefix pk maxKeys maxIterations w))
           = a_console w @ [Error ''Error processing block headers from storage:'' e])"
  using assms unfolding processKeys_def
  by (auto simp: Let_def split: prod.splits option.splits)

text \<open>
  C2. A run whose first page of two keys is processed and whose second page holds a key that
  fails: the transaction is rolled back, so no key is persisted and no cursor is stored, the
  error is logged and the call returns (with 2, the keys of the first page); but the two
  \<^verbatim>\<open>DispatchInfo\<close> records of the first page were handed to \<^verbatim>\<open>addPublishEvents\<close> before the
  failure and are on the buffer.
\<close>

theorem archive_failure_in_later_page:
  "\<not> r_committed (processKeys [''h/k1'', ''h/k2'', ''h/k3''] ''mainnet01'' 0 ''h/''
        (processKeyFailingOn [''h/k3'']) (Some 2) None emptyArchive)
   \<and> a_data (r_world (processKeys [''h/k1'', ''h/k2'', ''h/k3''] ''mainnet01'' 0 ''h/''
        (processKeyFailingOn [''h/k3'']) (Some 2) None emptyArchive)) = []
   \<and> cursorKey (a_syncStatus (r_world (processKeys [''h/k1'', ''h/k2'', ''h/k3''] ''mainnet01'' 0 ''h/''
        (processKeyFailingOn [''h/k3'']) (Some 2) None emptyArchive))) 0 ''mainnet01'' ''h/'' SOURCE_S3
       = None
   \<and> a_console (r_world (processKeys [''h/k1'', ''h/k2'', ''h/k3''] ''mainnet01'' 0 ''h/''
        (processKeyFailingOn [''h/k3'']) (Some 2) None emptyArchive))
       = [Error ''Error processing block headers from storage:'' (Thrown ''invalid payload'')]
   \<and> r_value (processKeys [''h/k1'', ''h/k2'', ''h/k3''] ''mainnet01'' 0 ''h/''
        (processKeyFailingOn [''h/k3'']) (Some 2) None emptyArchive) = 2
   \<and> a_bus (r_world (processKeys [''h/k1'', ''h/k2'', ''h/k3''] ''mainnet01'' 0 ''h/''
        (processKeyFailingOn [''h/k3'']) (Some 2) None emptyArchive))
       = [exampleDispatch ''h/k1'', exampleDispatch ''h/k2'']"
  by code_simp

subsection \<open>Retry of failed ranges\<close>












subsection \<open>Guards reconciler\<close>













subsection \<open>Query repositories\<close>



text \<open>
  C8, as the code has it. With exactly one cursor supplied, the third query parameter is that
  cursor and \<^verbatim>\<open>conditions\<close> is one comparison of \<^verbatim>\<open>e.id\<close> with \<^verbatim>\<open>$3\<close>: in the first revision
  \<^verbatim>\<open>e.id < $3\<close> for \<^verbatim>\<open>before\<close> and \<^verbatim>\<open>e.id > $3\<close> for \<^verbatim>\<open>after\<close>; in the second revision, on the
  cursors returned by \<^verbatim>\<open>getPaginationParams\<close>, \<^verbatim>\<open>e.id > $3\<close> for \<^verbatim>\<open>before\<close> and \<^verbatim>\<open>e.id < $3\<close>
  for \<^verbatim>\<open>after\<close>.
\<close>

theorem getBlockEvents_conditions:
  "(supplied (gp_before params) \<and> \<not> supplied (gp_after params) \<longrightarrow>
      q_conditions (getBlockEvents pg params) = CHR 0x0A # ''AND e.id < $3''
    \<and> placeholder (q_queryParams (getBlockEvents pg params)) 3 = Some (SqlText (the (gp_before params))))
 \<and> (supplied (gp_after params) \<and> \<not> supplied (gp_before params) \<longrightarrow>
      q_conditions (getBlockEvents pg params) = CHR 0x0A # ''AND e.id > $3''
    \<and> placeholder (q_queryParams (getBlockEvents pg params)) 3 = Some (SqlText (the (gp_after params))))
 \<and> (pagination = pg \<lparr> pi_after = gp_after params, pi_before = gp_before params,
                         pi_first = gp_first params, pi_last = gp_last params \<rparr> \<longrightarrow>
      (supplied (pp_before pagination) \<and> \<not> supplied (pp_after pagination) \<longrightarrow>
         q_conditions (getBlockEvents2 pg params) = CHR 0x0A # ''AND e.id > $3''
       \<and> placeholder (q_queryParams (getBlockEvents2 pg params)) 3
            = Some (SqlText (the (pp_before pagination))))
    \<and> (supplied (pp_after pagination) \<and> \<not> supplied (pp_before pagination) \<longrightarrow>
         q_conditions (getBlockEvents2 pg params) = CHR 0x0A # ''AND e.id < $3''
       \<and> placeholder (q_queryParams (getBlockEvents2 pg params)) 3
            = Some (SqlText (the (pp_after pagination)))))"
  by (simp add: getBlockEvents_def getBlockEvents2_def placeholder_def Let_def)


theorem getBlockEvents_conditions_witness:
  "q_conditions (getBlockEvents examplePagination
      \<lparr> gp_hash = ''H'', gp_after = None, gp_before = Some ''10'', gp_first = None, gp_last = None \<rparr>)
     = CHR 0x0A # ''AND e.id < $3''
   \<and> placeholder (q_queryParams (getBlockEvents examplePagination
      \<lparr> gp_hash = ''H'', gp_after = None, gp_before = Some ''10'', gp_first = None, gp_last = None \<rparr>)) 3
     = Some (SqlText ''10'')"
proof -
  let ?p = "\<lparr> gp_hash = ''H'', gp_after = None, gp_before = Some ''10'', gp_first = None, gp_last = None \<rparr>"
  have only_before: "supplied (gp_before ?p) \<and> \<not> supplied (gp_after ?p)"
    by (simp add: supplied_def truthy_def)
  note inst = getBlockEvents_conditions [of ?p examplePagination "examplePagination
      \<lparr> pi_after = gp_after ?p, pi_before = gp_before ?p, pi_first = gp_first ?p, pi_last = gp_last ?p \<rparr>"]
  from inst [THEN conjunct1] only_before
  have "q_conditions (getBlockEvents examplePagination ?p) = CHR 0x0A # ''AND e.id < $3''
    \<and> placeholder (q_queryParams (getBlockEvents examplePagination ?p)) 3
        = Some (SqlText (the (gp_before ?p)))"
    by (rule mp)
  then show ?thesis by simp
qed

text \<open>
  The claim as stated fails on the second revision: with a \<^verbatim>\<open>before\<close> cursor the condition is
  \<^verbatim>\<open>e.id > $3\<close>, and with an \<^verbatim>\<open>after\<close> cursor it is \<^verbatim>\<open>e.id < $3\<close>.
\<close>

theorem getBlockEvents_counterexample:
  "q_conditions (getBlockEvents2 examplePagination
      \<lparr> gp_hash = ''H'', gp_after = None, gp_before = Some ''10'', gp_first = None, gp_last = None \<rparr>)
     = CHR 0x0A # ''AND e.id > $3''
   \<and> placeholder (q_queryParams (getBlockEvents2 examplePagination
      \<lparr> gp_hash = ''H'', gp_after = None, gp_before = Some ''10'', gp_first = None, gp_last = None \<rparr>)) 3
     = Some (SqlText ''10'')
   \<and> q_conditions (getBlockEvents2 examplePagination
      \<lparr> gp_hash = ''H'', gp_after = None, gp_before = Some ''10'', gp_first = None, gp_last = None \<rparr>)
     \<noteq> CHR 0x0A # ''AND e.id < $3''
   \<and> q_conditions (getBlockEvents2 examplePagination
      \<lparr> gp_hash = ''H'', gp_after = Some ''10'', gp_before = None, gp_first = None, gp_last = None \<rparr>)
     = CHR 0x0A # ''AND e.id < $3''"
  by (simp add: getBlockEvents2_def examplePagination_def supplied_def truthy_def placeholder_def)

lemma findOne_distinct:
  assumes "b \<in> set rows" and "distinct (map b_hash rows)"
  shows "findOne rows (b_hash b) = Some b"
  using assms unfolding findOne_def
  by (induction rows) (auto simp: image_iff)

lemma findOne_missing:
  "h \<notin> set (map b_hash rows) \<Longrightarrow> findOne rows h = None"
  unfolding findOne_def by (induction rows) auto

lemma findOne_appended:
  "h \<notin> set (map b_hash rows) \<Longrightarrow> b_hash c = h \<Longrightarrow> findOne (rows @ [c]) h = Some c"
  unfolding findOne_def by (induction rows) auto

text \<open>
  C10. \<^verbatim>\<open>BlockDbRepository.getTotalCountOfBlockEvents\<close> returns the \<^verbatim>\<open>transactionsCount\<close> stored
  with the block of the hash, and 0 when no block has the hash or the attribute is null; for
  a block that \<^verbatim>\<open>saveBlock\<close> stored this is the number of transactions of its payload. It
  does not look at the events: for a block whose one transaction emitted two events it
  returns 1, where \<^verbatim>\<open>EventDbRepository.getTotalCountOfBlockEvents\<close> counts 2.
\<close>

theorem block_events_total_count:
  "(b \<in> set rows \<and> distinct (map b_hash rows) \<longrightarrow>
      BlockDb_getTotalCountOfBlockEvents rows (b_hash b)
        = (case b_transactionsCount b of None \<Rightarrow> 0 | Some n \<Rightarrow> n))
 \<and> (h \<notin> set (map b_hash rows) \<longrightarrow> BlockDb_getTotalCountOfBlockEvents rows h = 0)
 \<and> (fst (saveBlock ppk hdr p db) \<noteq> None \<longrightarrow>
      BlockDb_getTotalCountOfBlockEvents (blocks (fst (snd (saveBlock ppk hdr p db)))) (h_hash hdr)
        = int (length (p_transactions p)))
 \<and> BlockDb_getTotalCountOfBlockEvents exampleBlocks ''H'' = 1
 \<and> EventDb_getTotalCountOfBlockEvents exampleBlocks exampleTransactions exampleEvents ''H'' = 2"
proof -
  have stored: "BlockDb_getTotalCountOfBlockEvents rows (b_hash b)
        = (case b_transactionsCount b of None \<Rightarrow> 0 | Some n \<Rightarrow> n)"
    if "b \<in> set rows" "distinct (map b_hash rows)"
    using findOne_distinct [OF that]
    by (simp add: BlockDb_getTotalCountOfBlockEvents_def split: option.splits)
  have missing: "BlockDb_getTotalCountOfBlockEvents rows h = 0" if "h \<notin> set (map b_hash rows)"
    using findOne_missing [OF that] by (simp add: BlockDb_getTotalCountOfBlockEvents_def)
  have saved: "BlockDb_getTotalCountOfBlockEvents (blocks (fst (snd (saveBlock ppk hdr p db)))) (h_hash hdr)
        = int (length (p_transactions p))"
    if "fst (saveBlock ppk hdr p db) \<noteq> None"
  proof -
    let ?created = "(blockAttribute hdr p)\<lparr>b_id := int (length (blocks db)) + 1\<rparr>"
    from that have new: "h_hash hdr \<notin> set (map b_hash (blocks db))"
      and rows: "blocks (fst (snd (saveBlock ppk hdr p db))) = blocks db @ [?created]"
      by (auto simp: saveBlock_def Block_create_def blockAttribute_def Let_def
          split: sum.splits if_splits prod.splits)
    have "b_hash ?created = h_hash hdr"
      by (simp add: blockAttribute_def)
    from findOne_appended [OF new this]
    have "find (\<lambda>b. b_hash b = h_hash hdr) (blocks db @ [?created]) = Some ?created"
      by (simp add: findOne_def)
    then show ?thesis
      unfolding rows by (simp add: BlockDb_getTotalCountOfBlockEvents_def findOne_def blockAttribute_def)
  qed
  have one: "BlockDb_getTotalCountOfBlockEvents exampleBlocks ''H'' = 1"
    by (simp add: BlockDb_getTotalCountOfBlockEvents_def findOne_def exampleBlocks_def
        blockAttribute_def exampleHeader_def)
  have two: "EventDb_getTotalCountOfBlockEvents exampleBlocks exampleTransactions exampleEvents ''H'' = 2"
    by (simp add: EventDb_getTotalCountOfBlockEvents_def exampleBlocks_def exampleTransactions_def
        exampleEvents_def blockAttribute_def exampleHeader_def)
  from stored missing saved one two show ?thesis by blast
qed

theorem block_events_total_count_witness:
  "BlockDb_getTotalCountOfBlockEvents
     (blocks (fst (snd (saveBlock payloadOk (exampleHeader ''H'') examplePayload (s_db emptyStreamer)))))
     ''H'' = 0
   \<and> BlockDb_getTotalCountOfBlockEvents exampleBlocks ''G'' = 0"
proof -
  have commits: "fst (saveBlock payloadOk (exampleHeader ''H'') examplePayload (s_db emptyStreamer)) \<noteq> None"
    by (simp add: saveBlock_def Block_create_def emptyStreamer_def payloadOk_def Let_def)
  have missing: "''G'' \<notin> set (map b_hash exampleBlocks)"
    by (simp add: exampleBlocks_def blockAttribute_def exampleHeader_def)
  note inst = block_events_total_count [of _ exampleBlocks "''G''" payloadOk "exampleHeader ''H''"
      examplePayload "s_db emptyStreamer"]
  from inst [THEN conjunct2, THEN conjunct2, THEN conjunct1] commits
  have "BlockDb_getTotalCountOfBlockEvents
     (blocks (fst (snd (saveBlock payloadOk (exampleHeader ''H'') examplePayload (s_db emptyStreamer)))))
     (h_hash (exampleHeader ''H'')) = int (length (p_transactions examplePayload))"
    by (rule mp)
  then have first: "BlockDb_getTotalCountOfBlockEvents
     (blocks (fst (snd (saveBlock payloadOk (exampleHeader ''H'') examplePayload (s_db emptyStreamer)))))
     ''H'' = 0"
    by (simp add: exampleHeader_def examplePayload_def)
  from inst [THEN conjunct2, THEN conjunct1] missing
  have "BlockDb_getTotalCountOfBlockEvents exampleBlocks ''G'' = 0"
    by (rule mp)
  with first show ?thesis by simp
qed


end
